theory Spec2Isabelle
  imports Main "HOL-Library.Sublist"
begin

section \<open>Article downloader: a shallow embedding of \<^verbatim>\<open>src/main.py\<close>\<close>

text \<open>
  The program is one FastAPI application with two routes. \<^verbatim>\<open>GET /health\<close> returns a
  constant. \<^verbatim>\<open>POST /process-article\<close> validates the body, checks two environment
  variables, fetches a page, strips some elements from its parse tree, sends the text to
  a language model, renders the answer to a temporary PDF file, mails the file, and
  removes it.

  Everything the handler calls outside the file (the process environment, the HTTP
  client, the HTML parser, the language model, the PDF library, the temporary file
  module, the SMTP client) is a field of the record \<open>collaborators\<close>: for each call the
  field says whether the call returns (and what) or raises (and what). The handler's own
  control flow is then a function of these outcomes. What the handler can change (files
  on disk, mail delivered) and the external calls it attempts are the record \<open>world\<close>,
  passed through every function and returned updated.
\<close>

subsection \<open>Exceptions\<close>

text \<open>
  An exception raised by a library is its class, as far as the handler's \<^verbatim>\<open>except\<close>
  clauses tell classes apart, and its message \<^verbatim>\<open>str(e)\<close>.
  \<open>RequestException\<close> is \<^verbatim>\<open>requests.RequestException\<close> or a subclass of it
  (ConnectionError, Timeout, HTTPError, ...); \<open>OtherException\<close> is any other subclass of
  \<^verbatim>\<open>Exception\<close>.
\<close>

datatype exn = RequestException string | OtherException string

fun str :: "exn \<Rightarrow> string" where
  "str (RequestException m) = m"
| "str (OtherException m) = m"

text \<open>
  What leaves a handler function by \<^verbatim>\<open>raise\<close>: a \<^verbatim>\<open>fastapi.HTTPException\<close> with its
  status code and detail, or a library exception that no \<^verbatim>\<open>except\<close> clause caught.
\<close>

datatype raised = HTTPException nat string | Uncaught exn

subsection \<open>The request model\<close>

record ArticleRequest =
  url :: string
  email :: string

text \<open>\<^verbatim>\<open>validate_url\<close>: \<^verbatim>\<open>if not v.startswith(('http://', 'https://')): raise ValueError(...)\<close>.\<close>

definition validate_url :: "string \<Rightarrow> string + string" where
  "validate_url v =
     (if \<not> (prefix ''http://'' v \<or> prefix ''https://'' v)
      then Inl ''URL must start with http:// or https://''
      else Inr v)"

text \<open>\<^verbatim>\<open>validate_email\<close>: \<^verbatim>\<open>if '@' not in v or '.' not in v: raise ValueError(...)\<close>.\<close>

definition validate_email :: "string \<Rightarrow> string + string" where
  "validate_email v =
     (if CHR ''@'' \<notin> set v \<or> CHR ''.'' \<notin> set v
      then Inl ''Invalid email format''
      else Inr v)"

text \<open>
  Building an \<open>ArticleRequest\<close> from the two strings of a body runs both validators and
  collects the errors of the fields that failed, each under its field name.
\<close>

definition field_errors :: "string \<Rightarrow> string + string \<Rightarrow> (string \<times> string) list" where
  "field_errors name r = (case r of Inl msg \<Rightarrow> [(name, msg)] | Inr v \<Rightarrow> [])"

definition parse_ArticleRequest ::
  "string \<Rightarrow> string \<Rightarrow> (string \<times> string) list + ArticleRequest" where
  "parse_ArticleRequest u e =
     (case validate_url u of
        Inr u' \<Rightarrow>
          (case validate_email e of
             Inr e' \<Rightarrow> Inr \<lparr>url = u', email = e'\<rparr>
           | Inl msg \<Rightarrow> Inl [(''email'', msg)])
      | Inl msg \<Rightarrow> Inl ((''url'', msg) # field_errors ''email'' (validate_email e)))"

subsection \<open>The document tree and the cleaner\<close>

text \<open>
  The classes of string that \<^verbatim>\<open>bs4\<close> puts in a tree. \<^verbatim>\<open>get_text()\<close> on the document
  yields the strings whose class is exactly \<open>NavigableString\<close> or \<open>CData\<close>.
\<close>

datatype string_class = NavigableString | CData | Comment | Declaration | Doctype
  | ProcessingInstruction | Stylesheet | Script | TemplateString

text \<open>What the parser reads from the bytes: elements with a name and children, and strings.\<close>

datatype html = Element string "html list" | Str string_class string

text \<open>
  The parse tree as Python objects. \<^verbatim>\<open>find_all\<close> returns references to \<^verbatim>\<open>Tag\<close>
  objects and \<^verbatim>\<open>decompose\<close> removes the object it is called on, so two tags that look
  the same are still two objects: every \<open>Tag\<close> carries an identity, its number in
  document order.
\<close>

datatype node = Tag nat string "node list" | PyStr string_class string

fun label :: "nat \<Rightarrow> html \<Rightarrow> node \<times> nat"
  and labels :: "nat \<Rightarrow> html list \<Rightarrow> node list \<times> nat" where
  "label n (Str c s) = (PyStr c s, n)"
| "label n (Element nm cs) = (case labels (Suc n) cs of (cs', n') \<Rightarrow> (Tag n nm cs', n'))"
| "labels n [] = ([], n)"
| "labels n (t # ts) =
     (case label n t of (t', n1) \<Rightarrow> case labels n1 ts of (ts', n2) \<Rightarrow> (t' # ts', n2))"

text \<open>\<^verbatim>\<open>BeautifulSoup(page.content, "html.parser")\<close>: the children of the document object.\<close>

definition BeautifulSoup :: "html list \<Rightarrow> node list" where
  "BeautifulSoup parsed = fst (labels 0 parsed)"

definition removed_names :: "string list" where
  "removed_names = [''style'', ''script'', ''img'', ''path'']"

text \<open>\<^verbatim>\<open>lambda tag: tag.name in ['style','script', 'img', 'path']\<close>\<close>

definition tag_filter :: "string \<Rightarrow> bool" where
  "tag_filter nm = (nm \<in> set removed_names)"

text \<open>\<^verbatim>\<open>find_all\<close>: every matching tag below, in document order, nested matches included.\<close>

fun find_all :: "node \<Rightarrow> nat list" where
  "find_all (Tag i nm cs) = (if tag_filter nm then [i] else []) @ concat (map find_all cs)"
| "find_all (PyStr c s) = []"

definition soup_find_all :: "node list \<Rightarrow> nat list" where
  "soup_find_all doc = concat (map find_all doc)"

fun is_object :: "nat \<Rightarrow> node \<Rightarrow> bool" where
  "is_object i (Tag j nm cs) = (i = j)"
| "is_object i (PyStr c s) = False"

text \<open>
  \<^verbatim>\<open>tag.decompose()\<close> takes the tag \<open>i\<close> out of its parent's children, with everything
  below it. On a tag that left the tree with an ancestor decomposed earlier in the loop,
  nothing is left to take out.
\<close>

fun decompose :: "nat \<Rightarrow> node \<Rightarrow> node" where
  "decompose i (Tag j nm cs) = Tag j nm (filter (\<lambda>c. \<not> is_object i c) (map (decompose i) cs))"
| "decompose i (PyStr c s) = PyStr c s"

definition soup_decompose :: "nat \<Rightarrow> node list \<Rightarrow> node list" where
  "soup_decompose i doc = filter (\<lambda>c. \<not> is_object i c) (map (decompose i) doc)"

text \<open>\<^verbatim>\<open>get_text()\<close> with its defaults: separator \<^verbatim>\<open>""\<close>, no stripping.\<close>

fun get_text :: "node \<Rightarrow> string" where
  "get_text (Tag i nm cs) = concat (map get_text cs)"
| "get_text (PyStr c s) = (if c = NavigableString \<or> c = CData then s else [])"

definition soup_get_text :: "node list \<Rightarrow> string" where
  "soup_get_text doc = concat (map get_text doc)"

text \<open>
  Lines 97 to 104 of \<^verbatim>\<open>process_article\<close>: build the soup, collect the tags to remove,
  decompose each in turn, read the text.
\<close>

definition clean_soup :: "html list \<Rightarrow> node list" where
  "clean_soup parsed =
     (let soup = BeautifulSoup parsed;
          removed_tags = soup_find_all soup
      in fold soup_decompose removed_tags soup)"

definition extract_text :: "html list \<Rightarrow> string" where
  "extract_text parsed = soup_get_text (clean_soup parsed)"

text \<open>
  The cleaner as the specification words it, on the tree without identities: an element
  of one of the four kinds goes with all its descendants, wherever it stands; the text is
  the strings of what remains, one after the other, as they are.
\<close>

fun is_removed_element :: "html \<Rightarrow> bool" where
  "is_removed_element (Element nm cs) =
     (nm = ''style'' \<or> nm = ''script'' \<or> nm = ''img'' \<or> nm = ''path'')"
| "is_removed_element (Str c s) = False"

fun strip_removed :: "html \<Rightarrow> html" where
  "strip_removed (Element nm cs) =
     Element nm (filter (\<lambda>c. \<not> is_removed_element c) (map strip_removed cs))"
| "strip_removed (Str c s) = Str c s"

definition spec_clean :: "html list \<Rightarrow> html list" where
  "spec_clean parsed = filter (\<lambda>c. \<not> is_removed_element c) (map strip_removed parsed)"

fun all_text :: "html \<Rightarrow> string" where
  "all_text (Element nm cs) = concat (map all_text cs)"
| "all_text (Str c s) = (if c = NavigableString \<or> c = CData then s else [])"

definition spec_text :: "html list \<Rightarrow> string" where
  "spec_text parsed = concat (map all_text (spec_clean parsed))"

text \<open>Forgetting the identities, and the names and identities of the tags of a tree.\<close>

fun unlabel :: "node \<Rightarrow> html" where
  "unlabel (Tag i nm cs) = Element nm (map unlabel cs)"
| "unlabel (PyStr c s) = Str c s"

fun tags :: "node \<Rightarrow> (nat \<times> string) list" where
  "tags (Tag i nm cs) = (i, nm) # concat (map tags cs)"
| "tags (PyStr c s) = []"

definition soup_tags :: "node list \<Rightarrow> (nat \<times> string) list" where
  "soup_tags doc = concat (map tags doc)"

text \<open>Taking a whole set of objects out at once: what the loop of decompositions adds up to.\<close>

fun remove_set :: "nat set \<Rightarrow> node \<Rightarrow> node" where
  "remove_set M (Tag j nm cs) =
     Tag j nm (filter (\<lambda>c. \<forall>i\<in>M. \<not> is_object i c) (map (remove_set M) cs))"
| "remove_set M (PyStr c s) = PyStr c s"

definition soup_remove_set :: "nat set \<Rightarrow> node list \<Rightarrow> node list" where
  "soup_remove_set M doc = filter (\<lambda>c. \<forall>i\<in>M. \<not> is_object i c) (map (remove_set M) doc)"

definition agrees :: "nat set \<Rightarrow> (nat \<times> string) list \<Rightarrow> bool" where
  "agrees M ps = (\<forall>p \<in> set ps. (fst p \<in> M) = tag_filter (snd p))"

subsection \<open>Collaborators and the world\<close>

text \<open>The response object of \<^verbatim>\<open>requests\<close>, as far as the handler reads it.\<close>

record http_response =
  status_code :: nat
  reason :: string
  response_url :: string
  content :: string

text \<open>The mail that \<^verbatim>\<open>send_email\<close> composes.\<close>

record message =
  msg_from :: string
  msg_to :: string
  msg_subject :: string
  msg_body :: string
  attachment :: string
  attachment_filename :: string

text \<open>
  One field for each call that leaves the file. A call that can raise has the exception
  as one of its outcomes.
  \<^item> \<open>environ\<close>: the process environment after \<^verbatim>\<open>load_dotenv()\<close>, read by \<^verbatim>\<open>os.getenv\<close>.
  \<^item> \<open>OpenAI\<close>: the constructor \<^verbatim>\<open>OpenAI()\<close>; \<open>None\<close> when it returns a client.
  \<^item> \<open>requests_get\<close>: \<^verbatim>\<open>requests.get(url)\<close>, the last response after redirects.
  \<^item> \<open>html_parser\<close>: the tree that \<^verbatim>\<open>html.parser\<close> builds from the bytes.
  \<^item> \<open>responses_create\<close>: \<^verbatim>\<open>client.responses.create(...)\<close> on the input text, and the
    \<^verbatim>\<open>output_text\<close> of what it returns.
  \<^item> \<open>NamedTemporaryFile\<close>: the name of the file that \<^verbatim>\<open>tempfile\<close> created.
  \<^item> \<open>doc_build\<close>: the bytes that \<^verbatim>\<open>Paragraph\<close> and \<^verbatim>\<open>doc.build\<close> produce for a content.
  \<^item> \<open>open_rb\<close>: \<^verbatim>\<open>open(pdf_path, 'rb')\<close> on a path that exists; \<open>None\<close> when it opens.
  \<^item> \<open>SMTP_SSL\<close>, \<open>smtp_login\<close>: connecting to the relay and logging in; \<open>None\<close> when the
    call returns.
  \<^item> \<open>smtp_send_message\<close>: \<^verbatim>\<open>smtp.send_message(msg)\<close>. It raises when the relay takes the
    message for no recipient; it returns when the relay took it for at least one, and
    what it returns are the recipients that were refused.
  \<^item> \<open>smtp_quit\<close>: leaving the \<^verbatim>\<open>with smtplib.SMTP_SSL(...)\<close> block, which sends
    \<^verbatim>\<open>QUIT\<close> and raises when the relay does not answer 221; \<open>None\<close> when it returns.
  \<^item> \<open>os_unlink_error\<close>: \<^verbatim>\<open>os.unlink\<close> on a path that exists (a permission error, a
    read-only or locked file); \<open>None\<close> when the file is removed.
\<close>

record collaborators =
  environ :: "string \<rightharpoonup> string"
  OpenAI :: "exn option"
  requests_get :: "string \<Rightarrow> exn + http_response"
  html_parser :: "string \<Rightarrow> html list"
  responses_create :: "string \<Rightarrow> exn + string"
  NamedTemporaryFile :: "exn + string"
  doc_build :: "string \<Rightarrow> exn + string"
  open_rb :: "string \<Rightarrow> exn option"
  SMTP_SSL :: "exn option"
  smtp_login :: "string \<Rightarrow> string \<Rightarrow> exn option"
  smtp_send_message :: "message \<Rightarrow> exn + string list"
  smtp_quit :: "exn option"
  os_unlink_error :: "string \<Rightarrow> exn option"

text \<open>An external call the handler attempted, or a temporary file it was given.\<close>

datatype event =
    HttpGet string
  | ModelCall string
  | TempFileCreated string
  | PdfBuild string
  | SmtpConnect
  | SmtpLogin string
  | SmtpSendMessage string
  | SmtpQuit
  | Unlink string

text \<open>
  A mail the relay accepted: the message, and the recipients it refused (not all of
  them, or \<^verbatim>\<open>send_message\<close> would have raised).
\<close>

record delivery =
  sent_message :: message
  refused_recipients :: "string list"

text \<open>
  The file system is the set of paths that exist, each with its bytes. A mail is
  delivered when \<^verbatim>\<open>smtp.send_message\<close> returns, whatever happens afterwards. A call
  that raises leaves the files and the delivered mail as they were.
\<close>

record world =
  files :: "string \<rightharpoonup> string"
  delivered :: "delivery list"
  trace :: "event list"

definition log :: "event \<Rightarrow> world \<Rightarrow> world" where
  "log ev w = w\<lparr>trace := trace w @ [ev]\<rparr>"

subsection \<open>The HTTP client\<close>

definition digit_char :: "nat \<Rightarrow> char" where
  "digit_char d = ''0123456789'' ! d"

text \<open>\<^verbatim>\<open>str(n)\<close> of a natural number: its decimal digits.\<close>

function str_nat :: "nat \<Rightarrow> string" where
  "str_nat n = (if n < 10 then [digit_char n] else str_nat (n div 10) @ [digit_char (n mod 10)])"
  by pat_completeness auto
termination
  by (relation "measure id") auto

declare str_nat.simps [simp del]

text \<open>
  \<^verbatim>\<open>Response.raise_for_status()\<close> of \<^verbatim>\<open>requests\<close>: an \<^verbatim>\<open>HTTPError\<close> (a
  \<^verbatim>\<open>RequestException\<close>) for a status from 400 to 599, and nothing for any other status.
\<close>

definition raise_for_status :: "http_response \<Rightarrow> exn + unit" where
  "raise_for_status r =
     (if 400 \<le> status_code r \<and> status_code r < 500 then
        Inl (RequestException (str_nat (status_code r) @ '' Client Error: '' @ reason r
               @ '' for url: '' @ response_url r))
      else if 500 \<le> status_code r \<and> status_code r < 600 then
        Inl (RequestException (str_nat (status_code r) @ '' Server Error: '' @ reason r
               @ '' for url: '' @ response_url r))
      else Inr ())"

text \<open>
  The body of the first \<^verbatim>\<open>try\<close> of \<^verbatim>\<open>process_article\<close>:
  \<^verbatim>\<open>page = requests.get(url); page.raise_for_status()\<close>.
\<close>

definition fetch :: "collaborators \<Rightarrow> string \<Rightarrow> exn + http_response" where
  "fetch c u =
     (case requests_get c u of
        Inl e \<Rightarrow> Inl e
      | Inr page \<Rightarrow> (case raise_for_status page of Inl e \<Rightarrow> Inl e | Inr _ \<Rightarrow> Inr page))"

subsection \<open>The pipeline stages\<close>

text \<open>
  \<^verbatim>\<open>process_article(url)\<close>. The client is built first, outside any \<^verbatim>\<open>try\<close>. The first
  \<^verbatim>\<open>except\<close> catches \<^verbatim>\<open>requests.RequestException\<close> only; the second catches every
  \<^verbatim>\<open>Exception\<close>.
\<close>

definition process_article :: "collaborators \<Rightarrow> string \<Rightarrow> world \<Rightarrow> world \<times> (raised + string)" where
  "process_article c u w =
     (case OpenAI c of
        Some e \<Rightarrow> (w, Inl (Uncaught e))
      | None \<Rightarrow>
          (let w1 = log (HttpGet u) w in
           case fetch c u of
             Inl (RequestException m) \<Rightarrow>
               (w1, Inl (HTTPException 400 (''Failed to fetch article: '' @ m)))
           | Inl (OtherException m) \<Rightarrow> (w1, Inl (Uncaught (OtherException m)))
           | Inr page \<Rightarrow>
               (let text_only = extract_text (html_parser c (content page));
                    w2 = log (ModelCall text_only) w1
                in case responses_create c text_only of
                     Inl e \<Rightarrow>
                       (w2, Inl (HTTPException 500
                                   (''Failed to process article content: '' @ str e)))
                   | Inr output_text \<Rightarrow> (w2, Inr output_text))))"

text \<open>\<^verbatim>\<open>create_pdf(content, output_path)\<close>: the document is written when it is built.\<close>

definition create_pdf :: "collaborators \<Rightarrow> string \<Rightarrow> string \<Rightarrow> world \<Rightarrow> world \<times> (exn + unit)" where
  "create_pdf c text output_path w =
     (let w1 = log (PdfBuild output_path) w in
      case doc_build c text of
        Inl e \<Rightarrow> (w1, Inl e)
      | Inr bytes \<Rightarrow> (w1\<lparr>files := (files w1)(output_path \<mapsto> bytes)\<rparr>, Inr ()))"

text \<open>
  The body of the \<^verbatim>\<open>with smtplib.SMTP_SSL(...) as smtp\<close> block: log in, send.
\<close>

definition smtp_session ::
  "collaborators \<Rightarrow> string \<Rightarrow> string \<Rightarrow> string \<Rightarrow> message \<Rightarrow> world \<Rightarrow> world \<times> (exn + unit)" where
  "smtp_session c sender_email sender_password recipient_email msg w =
     (let w2 = log (SmtpLogin sender_email) w in
      case smtp_login c sender_email sender_password of
        Some e \<Rightarrow> (w2, Inl e)
      | None \<Rightarrow>
          (let w3 = log (SmtpSendMessage recipient_email) w2 in
           case smtp_send_message c msg of
             Inl e \<Rightarrow> (w3, Inl e)
           | Inr refused \<Rightarrow>
               (w3\<lparr>delivered := delivered w3
                       @ [\<lparr>sent_message = msg, refused_recipients = refused\<rparr>]\<rparr>,
                Inr ())))"

text \<open>
  Leaving the \<^verbatim>\<open>with\<close> block, after its body returned or raised: the session is closed
  with \<^verbatim>\<open>QUIT\<close>. When that raises, its exception is the one that leaves the statement,
  also in place of an exception of the body; otherwise the outcome of the body does.
\<close>

definition smtp_exit :: "collaborators \<Rightarrow> world \<times> (exn + unit) \<Rightarrow> world \<times> (exn + unit)" where
  "smtp_exit c body_outcome =
     (case body_outcome of
        (w, r) \<Rightarrow>
          (let w1 = log SmtpQuit w in
           case smtp_quit c of
             Some e \<Rightarrow> (w1, Inl e)
           | None \<Rightarrow> (w1, r)))"

text \<open>
  \<^verbatim>\<open>send_email(...)\<close>: read the file (\<^verbatim>\<open>open\<close> raises when the path does not exist, and
  can raise when it does), connect, run the session, close it.
\<close>

definition send_email ::
  "collaborators \<Rightarrow> string \<Rightarrow> string \<Rightarrow> string \<Rightarrow> string \<Rightarrow> string \<Rightarrow> string \<Rightarrow> world
     \<Rightarrow> world \<times> (exn + unit)" where
  "send_email c sender_email sender_password recipient_email subject body pdf_path w =
     (case files w pdf_path of
        None \<Rightarrow>
          (w, Inl (OtherException
                     (''[Errno 2] No such file or directory: '' @ [CHR 0x27] @ pdf_path @ [CHR 0x27])))
      | Some bytes \<Rightarrow>
          (case open_rb c pdf_path of
             Some e \<Rightarrow> (w, Inl e)
           | None \<Rightarrow>
               (let msg = \<lparr>msg_from = sender_email, msg_to = recipient_email,
                           msg_subject = subject, msg_body = body, attachment = bytes,
                           attachment_filename = ''article.pdf''\<rparr>;
                    w1 = log SmtpConnect w
                in case SMTP_SSL c of
                     Some e \<Rightarrow> (w1, Inl e)
                   | None \<Rightarrow>
                       smtp_exit c
                         (smtp_session c sender_email sender_password recipient_email msg w1))))"

subsection \<open>The orchestrator\<close>

text \<open>\<^verbatim>\<open>not x\<close> on the result of \<^verbatim>\<open>os.getenv\<close>: true of \<^verbatim>\<open>None\<close> and of the empty string.\<close>

fun falsy :: "string option \<Rightarrow> bool" where
  "falsy None = True"
| "falsy (Some s) = (s = [])"

definition config_detail :: string where
  "config_detail =
     ''Email configuration is missing. Please set EMAIL_USER and EMAIL_PASSWORD in your .env file''"

definition success_body :: "(string \<times> string) list" where
  "success_body = [(''message'', ''Article has been processed and sent to your email!'')]"

text \<open>
  \<^verbatim>\<open>os.path.exists\<close> and \<^verbatim>\<open>os.unlink\<close>. The latter raises on a path that does not
  exist; on a path that exists it removes the file, or raises and leaves it.
\<close>

definition os_path_exists :: "string \<Rightarrow> world \<Rightarrow> bool" where
  "os_path_exists p w = (files w p \<noteq> None)"

definition os_unlink :: "collaborators \<Rightarrow> string \<Rightarrow> world \<Rightarrow> world \<times> (exn + unit)" where
  "os_unlink c p w =
     (let w1 = log (Unlink p) w in
      case files w p of
        None \<Rightarrow>
          (w1, Inl (OtherException
                      (''[Errno 2] No such file or directory: '' @ [CHR 0x27] @ p @ [CHR 0x27])))
      | Some bytes \<Rightarrow>
          (case os_unlink_error c p of
             Some e \<Rightarrow> (w1, Inl e)
           | None \<Rightarrow> (w1\<lparr>files := (files w)(p := None)\<rparr>, Inr ())))"

text \<open>The \<^verbatim>\<open>finally\<close> block: \<^verbatim>\<open>if os.path.exists(pdf_path): os.unlink(pdf_path)\<close>.\<close>

definition cleanup :: "collaborators \<Rightarrow> string \<Rightarrow> world \<Rightarrow> world \<times> (exn + unit)" where
  "cleanup c pdf_path w =
     (if os_path_exists pdf_path w then os_unlink c pdf_path w else (w, Inr ()))"

text \<open>
  The \<^verbatim>\<open>try\<close> block with its \<^verbatim>\<open>except Exception\<close> clause: render, send, return the
  success message; any exception of the two calls becomes the 500 of the clause.
\<close>

definition render_and_send ::
  "collaborators \<Rightarrow> ArticleRequest \<Rightarrow> string \<Rightarrow> string \<Rightarrow> string \<Rightarrow> string \<Rightarrow> world
     \<Rightarrow> world \<times> (raised + (string \<times> string) list)" where
  "render_and_send c request sender_email sender_password article_content pdf_path w =
     (case create_pdf c article_content pdf_path w of
        (w1, Inl e) \<Rightarrow>
          (w1, Inl (HTTPException 500 (''Failed to process or send article: '' @ str e)))
      | (w1, Inr _) \<Rightarrow>
          (case send_email c sender_email sender_password (email request)
                  (''Article from '' @ url request) ''Please find the attached article.''
                  pdf_path w1 of
             (w2, Inl e) \<Rightarrow>
               (w2, Inl (HTTPException 500 (''Failed to process or send article: '' @ str e)))
           | (w2, Inr _) \<Rightarrow> (w2, Inr success_body)))"

text \<open>
  \<^verbatim>\<open>try: ... finally: ...\<close>: the \<^verbatim>\<open>finally\<close> block runs after the body whatever the body
  did. When it raises, its exception is the one that leaves the statement; when it
  returns, the body's result (value or exception) does.
\<close>

definition try_finally ::
  "(world \<Rightarrow> world \<times> (raised + 'a)) \<Rightarrow> (world \<Rightarrow> world \<times> (exn + unit)) \<Rightarrow> world
     \<Rightarrow> world \<times> (raised + 'a)" where
  "try_finally body final w =
     (case body w of
        (w1, r) \<Rightarrow>
          (case final w1 of
             (w2, Inl e) \<Rightarrow> (w2, Inl (Uncaught e))
           | (w2, Inr _) \<Rightarrow> (w2, r)))"

text \<open>\<^verbatim>\<open>process_article_endpoint(request)\<close>.\<close>

definition process_article_endpoint ::
  "collaborators \<Rightarrow> ArticleRequest \<Rightarrow> world \<Rightarrow> world \<times> (raised + (string \<times> string) list)" where
  "process_article_endpoint c request w =
     (let sender_email = environ c ''EMAIL_USER'';
          sender_password = environ c ''EMAIL_PASSWORD''
      in if falsy sender_email \<or> falsy sender_password then
           (w, Inl (HTTPException 500 config_detail))
         else
           (case process_article c (url request) w of
              (w1, Inl r) \<Rightarrow> (w1, Inl r)
            | (w1, Inr article_content) \<Rightarrow>
                (case NamedTemporaryFile c of
                   Inl e \<Rightarrow> (w1, Inl (Uncaught e))
                 | Inr pdf_path \<Rightarrow>
                     try_finally
                       (render_and_send c request (the sender_email) (the sender_password)
                          article_content pdf_path)
                       (cleanup c pdf_path)
                       (log (TempFileCreated pdf_path)
                          (w1\<lparr>files := (files w1)(pdf_path \<mapsto> [])\<rparr>)))))"

text \<open>\<^verbatim>\<open>health_check()\<close>.\<close>

definition health_check :: "(string \<times> string) list" where
  "health_check = [(''status'', ''healthy'')]"

subsection \<open>The routes\<close>

text \<open>
  What FastAPI sends for what a handler did: 200 with the returned object; the status
  and detail of an \<^verbatim>\<open>HTTPException\<close>; 500 for any other exception; 422 with the field
  errors when the body does not make an \<open>ArticleRequest\<close>, in which case the handler is
  not called.
\<close>

datatype body = Json "(string \<times> string) list" | FieldErrors "(string \<times> string) list"
  | PlainText string

record reply =
  status :: nat
  payload :: body

fun respond :: "raised + (string \<times> string) list \<Rightarrow> reply" where
  "respond (Inr obj) = \<lparr>status = 200, payload = Json obj\<rparr>"
| "respond (Inl (HTTPException code detail)) = \<lparr>status = code, payload = Json [(''detail'', detail)]\<rparr>"
| "respond (Inl (Uncaught e)) = \<lparr>status = 500, payload = PlainText ''Internal Server Error''\<rparr>"

definition get_health :: "collaborators \<Rightarrow> world \<Rightarrow> world \<times> reply" where
  "get_health c w = (w, respond (Inr health_check))"

definition post_process_article ::
  "collaborators \<Rightarrow> string \<Rightarrow> string \<Rightarrow> world \<Rightarrow> world \<times> reply" where
  "post_process_article c u e w =
     (case parse_ArticleRequest u e of
        Inl errors \<Rightarrow> (w, \<lparr>status = 422, payload = FieldErrors errors\<rparr>)
      | Inr request \<Rightarrow>
          (case process_article_endpoint c request w of (w', r) \<Rightarrow> (w', respond r)))"

text \<open>The detail messages of the three pipeline errors all start in one of these ways.\<close>

definition is_pipeline_detail :: "string \<Rightarrow> bool" where
  "is_pipeline_detail d =
     (prefix ''Failed to fetch article: '' d
      \<or> prefix ''Failed to process article content: '' d
      \<or> prefix ''Failed to process or send article: '' d)"

text \<open>The events a run added to the trace.\<close>

definition new_events :: "world \<Rightarrow> world \<Rightarrow> event list" where
  "new_events w w' = drop (length (trace w)) (trace w')"

text \<open>
  The world in which the \<^verbatim>\<open>try\<close> block starts, when the earlier stages passed and the
  temporary file was created at \<open>pdf_path\<close>.
\<close>

definition world_at_try :: "collaborators \<Rightarrow> ArticleRequest \<Rightarrow> world \<Rightarrow> string \<Rightarrow> world" where
  "world_at_try c request w pdf_path =
     (let w1 = fst (process_article c (url request) w)
      in log (TempFileCreated pdf_path) (w1\<lparr>files := (files w1)(pdf_path \<mapsto> [])\<rparr>))"

text \<open>The names of the elements of a tree.\<close>

fun element_names :: "html \<Rightarrow> string list" where
  "element_names (Element nm cs) = nm # concat (map element_names cs)"
| "element_names (Str c s) = []"


subsection \<open>Concrete collaborators for the example runs\<close>

text \<open>
  A site where every call succeeds, and variants of it in which one collaborator behaves
  differently; an empty world; a valid request.
\<close>

definition demo_site :: collaborators where
  "demo_site =
     \<lparr>environ = [''EMAIL_USER'' \<mapsto> ''bot@example.com'', ''EMAIL_PASSWORD'' \<mapsto> ''hunter2''],
      OpenAI = None,
      requests_get = (\<lambda>u. Inr \<lparr>status_code = 200, reason = ''OK'', response_url = u,
                                 content = ''<p>Hi <img>there</p>''\<rparr>),
      html_parser = (\<lambda>b. [Element ''p'' [Str NavigableString ''Hi '', Element ''img'' [],
                                            Str NavigableString ''there'']]),
      responses_create = (\<lambda>t. Inr (''Title. '' @ t)),
      NamedTemporaryFile = Inr ''/tmp/tmpk3v9x2aq.pdf'',
      doc_build = (\<lambda>t. Inr (''%PDF-1.4 '' @ t)),
      open_rb = (\<lambda>p. None),
      SMTP_SSL = None,
      smtp_login = (\<lambda>u p. None),
      smtp_send_message = (\<lambda>m. Inr []),
      smtp_quit = None,
      os_unlink_error = (\<lambda>p. None)\<rparr>"

definition no_user_site :: collaborators where
  "no_user_site = demo_site\<lparr>environ := [''EMAIL_PASSWORD'' \<mapsto> ''hunter2'']\<rparr>"

definition empty_password_site :: collaborators where
  "empty_password_site =
     demo_site\<lparr>environ := [''EMAIL_USER'' \<mapsto> ''bot@example.com'', ''EMAIL_PASSWORD'' \<mapsto> []]\<rparr>"

definition not_found_site :: collaborators where
  "not_found_site =
     demo_site\<lparr>requests_get := (\<lambda>u. Inr \<lparr>status_code = 404, reason = ''Not Found'',
                                             response_url = u, content = ''gone''\<rparr>)\<rparr>"

definition not_modified_site :: collaborators where
  "not_modified_site =
     demo_site\<lparr>requests_get := (\<lambda>u. Inr \<lparr>status_code = 304, reason = ''Not Modified'',
                                             response_url = u, content = []\<rparr>)\<rparr>"

definition model_down_site :: collaborators where
  "model_down_site =
     demo_site\<lparr>responses_create := (\<lambda>t. Inl (OtherException ''Connection error.''))\<rparr>"

definition relay_down_site :: collaborators where
  "relay_down_site =
     demo_site\<lparr>smtp_login := (\<lambda>u p. Some (OtherException ''Username and Password not accepted''))\<rparr>"

definition quit_refused_site :: collaborators where
  "quit_refused_site =
     demo_site\<lparr>smtp_quit := Some (OtherException ''(421, Service not available)'')\<rparr>"

definition unlink_denied_site :: collaborators where
  "unlink_denied_site =
     demo_site\<lparr>os_unlink_error := (\<lambda>p. Some (OtherException ''[Errno 1] Operation not permitted''))\<rparr>"

definition relay_down_unlink_denied_site :: collaborators where
  "relay_down_unlink_denied_site =
     relay_down_site\<lparr>os_unlink_error :=
        (\<lambda>p. Some (OtherException ''[Errno 1] Operation not permitted''))\<rparr>"

definition demo_world :: world where
  "demo_world = \<lparr>files = Map.empty, delivered = [], trace = []\<rparr>"

definition demo_request :: ArticleRequest where
  "demo_request = \<lparr>url = ''https://example.com/a'', email = ''reader@example.com''\<rparr>"

definition demo_document :: "html list" where
  "demo_document =
     [Element ''div''
        [Element ''img'' [],
         Str NavigableString ''hi  '',
         Element ''p'' [Element ''path'' [Str NavigableString ''x'', Element ''img'' []]],
         Str Comment ''c'',
         Str NavigableString '' yo'']]"

section \<open>The cleaner is the filter the specification describes\<close>

lemma is_object_decompose [simp]: "is_object i (decompose k t) = is_object i t"
  by (cases t) auto

lemma is_object_remove_set [simp]: "is_object i (remove_set M t) = is_object i t"
  by (cases t) auto

lemma remove_set_empty [simp]: "remove_set {} t = t"
  by (induction t) (auto simp: map_idI)

lemma decompose_remove_set: "decompose i (remove_set M t) = remove_set (insert i M) t"
proof (induction t)
  case (Tag j nm cs)
  have "filter (\<lambda>c. \<not> is_object i c) (map (decompose i) (filter (\<lambda>c. \<forall>k\<in>M. \<not> is_object k c) (map (remove_set M) cs)))
      = filter (\<lambda>c. \<forall>k\<in>insert i M. \<not> is_object k c) (map (remove_set (insert i M)) cs)"
    using Tag.IH
  proof (induction cs)
    case Nil then show ?case by simp
  next
    case (Cons c cs) then show ?case by auto
  qed
  then show ?case by simp
next
  case (PyStr c s) then show ?case by simp
qed

lemma soup_decompose_remove_set:
  "soup_decompose i (soup_remove_set M doc) = soup_remove_set (insert i M) doc"
  unfolding soup_decompose_def soup_remove_set_def
  by (induction doc) (auto simp: decompose_remove_set)

lemma fold_soup_decompose:
  "fold soup_decompose ids (soup_remove_set M doc) = soup_remove_set (set ids \<union> M) doc"
  by (induction ids arbitrary: M) (auto simp: soup_decompose_remove_set)

lemma soup_remove_set_empty [simp]: "soup_remove_set {} doc = doc"
  by (simp add: soup_remove_set_def map_idI)

lemma fold_soup_decompose_all:
  "fold soup_decompose ids doc = soup_remove_set (set ids) doc"
  using fold_soup_decompose [of ids "{}" doc] by simp

lemma soup_tags_simps [simp]:
  "soup_tags [] = []" "soup_tags (t # ts) = tags t @ soup_tags ts"
  by (simp_all add: soup_tags_def)

lemma tags_Tag: "tags (Tag i nm cs) = (i, nm) # soup_tags cs"
  by (simp add: soup_tags_def)

lemma label_fresh:
  "label n t = (t', n') \<Longrightarrow>
     n \<le> n' \<and> fst ` set (tags t') \<subseteq> {n..<n'} \<and> distinct (map fst (tags t'))"
  "labels n ts = (ts', n') \<Longrightarrow>
     n \<le> n' \<and> fst ` set (soup_tags ts') \<subseteq> {n..<n'} \<and> distinct (map fst (soup_tags ts'))"
proof (induction n t and n ts arbitrary: t' n' and ts' n' rule: label_labels.induct)
  case (1 n c s)
  then show ?case by auto
next
  case (2 n nm cs)
  obtain cs' m where L: "labels (Suc n) cs = (cs', m)" by (cases "labels (Suc n) cs")
  with 2(2) have E: "t' = Tag n nm cs'" "n' = m" by auto
  from 2(1)[OF L] have B: "Suc n \<le> m" "fst ` set (soup_tags cs') \<subseteq> {Suc n..<m}"
    "distinct (map fst (soup_tags cs'))" by auto
  have F: "n \<notin> fst ` set (soup_tags cs')" using B(2) by auto
  have S: "fst ` set (soup_tags cs') \<subseteq> {n..<m}" using B(2) by auto
  show ?case unfolding E tags_Tag using B(1,3) F S by simp
next
  case (3 n)
  then show ?case by auto
next
  case (4 n t ts)
  obtain t1 n1 where L1: "label n t = (t1, n1)" by (cases "label n t")
  obtain ts2 n2 where L2: "labels n1 ts = (ts2, n2)" by (cases "labels n1 ts")
  from 4(3) L1 L2 have E: "ts' = t1 # ts2" "n' = n2" by auto
  from 4(1)[OF L1] have B1: "n \<le> n1" "fst ` set (tags t1) \<subseteq> {n..<n1}" "distinct (map fst (tags t1))"
    by auto
  from 4(2)[OF L1 [symmetric] L2] have B2: "n1 \<le> n2" "fst ` set (soup_tags ts2) \<subseteq> {n1..<n2}"
    "distinct (map fst (soup_tags ts2))" by auto
  have D: "fst ` set (tags t1) \<inter> fst ` set (soup_tags ts2) = {}"
  proof (rule ccontr)
    assume "fst ` set (tags t1) \<inter> fst ` set (soup_tags ts2) \<noteq> {}"
    then obtain k where "k \<in> fst ` set (tags t1)" "k \<in> fst ` set (soup_tags ts2)" by blast
    with B1(2) B2(2) have "k < n1" "n1 \<le> k" by auto
    then show False by simp
  qed
  have S1: "fst ` set (tags t1) \<subseteq> {n..<n2}" using B1(2) B2(1) by fastforce
  have S2: "fst ` set (soup_tags ts2) \<subseteq> {n..<n2}" using B2(2) B1(1) by fastforce
  have N: "n \<le> n2" using B1(1) B2(1) by simp
  show ?case unfolding E using N S1 S2 D B1(3) B2(3) by (simp add: image_Un)
qed

lemma unlabel_label:
  "label n t = (t', n') \<Longrightarrow> unlabel t' = t"
  "labels n ts = (ts', n') \<Longrightarrow> map unlabel ts' = ts"
  by (induction n t and n ts arbitrary: t' n' and ts' n' rule: label_labels.induct)
     (auto split: prod.splits)

lemma set_find_all:
  "set (find_all t) = {i. \<exists>nm. (i, nm) \<in> set (tags t) \<and> tag_filter nm}"
  by (induction t) auto

lemma set_soup_find_all:
  "set (soup_find_all doc) = {i. \<exists>nm. (i, nm) \<in> set (soup_tags doc) \<and> tag_filter nm}"
proof (induction doc)
  case Nil then show ?case by (simp add: soup_find_all_def)
next
  case (Cons t ts)
  have "set (soup_find_all (t # ts)) = set (find_all t) \<union> set (soup_find_all ts)"
    by (simp add: soup_find_all_def)
  then show ?case unfolding Cons set_find_all by auto
qed

lemma agrees_find_all:
  assumes "distinct (map fst (soup_tags doc))"
  shows "agrees (set (soup_find_all doc)) (soup_tags doc)"
  unfolding agrees_def
proof
  fix p assume p: "p \<in> set (soup_tags doc)"
  obtain i nm where e: "p = (i, nm)" by (cases p)
  have u: "nm' = nm" if "(i, nm') \<in> set (soup_tags doc)" for nm'
    using eq_key_imp_eq_value [OF assms that] p e by blast
  have "(i \<in> set (soup_find_all doc)) = tag_filter nm"
  proof
    assume "i \<in> set (soup_find_all doc)"
    then obtain nm' where "(i, nm') \<in> set (soup_tags doc)" "tag_filter nm'"
      unfolding set_soup_find_all by blast
    with u show "tag_filter nm" by blast
  next
    assume "tag_filter nm"
    with p e show "i \<in> set (soup_find_all doc)"
      unfolding set_soup_find_all by blast
  qed
  then show "(fst p \<in> set (soup_find_all doc)) = tag_filter (snd p)"
    by (simp add: e)
qed

lemma keep_child:
  "agrees M (tags c) \<Longrightarrow> (\<forall>i\<in>M. \<not> is_object i c) = (\<not> is_removed_element (unlabel c))"
  by (cases c) (auto simp: agrees_def tag_filter_def removed_names_def)

lemma unlabel_remove_set:
  "agrees M (tags t) \<Longrightarrow> unlabel (remove_set M t) = strip_removed (unlabel t)"
proof (induction t)
  case (Tag j nm cs)
  have sub: "agrees M (tags c)" if "c \<in> set cs" for c
    using Tag.prems that by (auto simp: agrees_def)
  have "map unlabel (filter (\<lambda>c. \<forall>i\<in>M. \<not> is_object i c) (map (remove_set M) cs))
      = filter (\<lambda>c. \<not> is_removed_element c) (map strip_removed (map unlabel cs))"
    using Tag.IH sub
  proof (induction cs)
    case Nil then show ?case by simp
  next
    case (Cons c cs)
    have k: "(\<forall>i\<in>M. \<not> is_object i c) = (\<not> is_removed_element (unlabel c))"
      using keep_child Cons.prems(2) by simp
    have e: "unlabel (remove_set M c) = strip_removed (unlabel c)"
      using Cons.prems by simp
    have r: "is_removed_element (strip_removed (unlabel c)) = is_removed_element (unlabel c)"
      by (cases c) auto
    have IH: "map unlabel (filter (\<lambda>c. \<forall>i\<in>M. \<not> is_object i c) (map (remove_set M) cs))
      = filter (\<lambda>c. \<not> is_removed_element c) (map strip_removed (map unlabel cs))"
      using Cons by simp
    show ?case using k e r IH by simp
  qed
  then show ?case by simp
next
  case (PyStr c s) then show ?case by simp
qed

lemma unlabel_soup_remove_set:
  assumes "agrees M (soup_tags doc)"
  shows "map unlabel (soup_remove_set M doc) = spec_clean (map unlabel doc)"
  using assms
proof (induction doc)
  case Nil
  then show ?case by (simp add: soup_remove_set_def spec_clean_def)
next
  case (Cons c cs)
  from Cons.prems have a1: "agrees M (tags c)" and a2: "agrees M (soup_tags cs)"
    by (auto simp: agrees_def)
  have r: "is_removed_element (strip_removed (unlabel c)) = is_removed_element (unlabel c)"
    by (cases c) auto
  from Cons.IH [OF a2] keep_child [OF a1] unlabel_remove_set [OF a1] r
  show ?case by (simp add: soup_remove_set_def spec_clean_def)
qed

lemma get_text_unlabel: "get_text t = all_text (unlabel t)"
proof (induction t)
  case (Tag i nm cs)
  have "concat (map get_text cs) = concat (map (\<lambda>x. all_text (unlabel x)) cs)"
    by (rule arg_cong [where f = concat], rule map_cong [OF refl], rule Tag.IH)
  then show ?case by (simp add: comp_def)
next
  case (PyStr c s)
  then show ?case by simp
qed

lemma soup_get_text_unlabel: "soup_get_text doc = concat (map all_text (map unlabel doc))"
proof -
  have "concat (map get_text doc) = concat (map (\<lambda>x. all_text (unlabel x)) doc)"
    by (rule arg_cong [where f = concat], rule map_cong [OF refl], rule get_text_unlabel)
  then show ?thesis by (simp add: soup_get_text_def comp_def)
qed

lemma clean_soup_unlabel: "map unlabel (clean_soup parsed) = spec_clean parsed"
proof -
  obtain soup n where L: "labels 0 parsed = (soup, n)" by (cases "labels 0 parsed")
  then have S: "BeautifulSoup parsed = soup" by (simp add: BeautifulSoup_def)
  from label_fresh(2) [OF L] have "distinct (map fst (soup_tags soup))" by simp
  then have A: "agrees (set (soup_find_all soup)) (soup_tags soup)" by (rule agrees_find_all)
  have "clean_soup parsed = soup_remove_set (set (soup_find_all soup)) soup"
    by (simp add: clean_soup_def S Let_def fold_soup_decompose_all)
  then have "map unlabel (clean_soup parsed) = spec_clean (map unlabel soup)"
    using unlabel_soup_remove_set [OF A] by simp
  then show ?thesis using unlabel_label(2) [OF L] by simp
qed

text \<open>
  The filter of the specification removes exactly the four kinds: no element of these
  names is left in its result, and a document that has none is returned as it is.
\<close>

lemma strip_removed_names:
  "nm \<in> set (element_names (strip_removed t)) \<Longrightarrow> tag_filter nm \<Longrightarrow> is_removed_element t"
proof (induction t)
  case (Element n cs)
  show ?case
  proof (cases "nm = n")
    case True
    with Element.prems(2) show ?thesis by (simp add: tag_filter_def removed_names_def)
  next
    case False
    with Element.prems(1) obtain c where c: "c \<in> set cs" "\<not> is_removed_element (strip_removed c)"
      "nm \<in> set (element_names (strip_removed c))" by auto
    have "is_removed_element (strip_removed c) = is_removed_element c" by (cases c) auto
    with Element.IH [OF c(1) c(3) Element.prems(2)] c(2) show ?thesis by simp
  qed
next
  case (Str c s)
  then show ?case by simp
qed

lemma spec_clean_has_no_removed_element:
  assumes "nm \<in> set (concat (map element_names (spec_clean parsed)))"
  shows "\<not> tag_filter nm"
proof
  assume tf: "tag_filter nm"
  from assms obtain t where t: "t \<in> set parsed" "\<not> is_removed_element (strip_removed t)"
    "nm \<in> set (element_names (strip_removed t))"
    by (auto simp: spec_clean_def)
  have "is_removed_element (strip_removed t) = is_removed_element t" by (cases t) auto
  with strip_removed_names [OF t(3) tf] t(2) show False by simp
qed

lemma strip_removed_id:
  "(\<And>nm. nm \<in> set (element_names t) \<Longrightarrow> \<not> tag_filter nm) \<Longrightarrow> strip_removed t = t"
proof (induction t)
  case (Element n cs)
  have k: "strip_removed c = c \<and> \<not> is_removed_element c" if "c \<in> set cs" for c
  proof -
    have sub: "\<And>nm. nm \<in> set (element_names c) \<Longrightarrow> \<not> tag_filter nm"
      using Element.prems that by auto
    have "strip_removed c = c" using Element.IH [OF that] sub by blast
    moreover have "\<not> is_removed_element c"
      using sub by (cases c) (auto simp: tag_filter_def removed_names_def)
    ultimately show ?thesis by simp
  qed
  have "filter (\<lambda>c. \<not> is_removed_element c) (map strip_removed cs) = cs"
    using k by (induction cs) auto
  then show ?case by simp
next
  case (Str c s)
  then show ?case by simp
qed

lemma spec_clean_keeps_other_documents:
  assumes "\<And>nm. nm \<in> set (concat (map element_names parsed)) \<Longrightarrow> \<not> tag_filter nm"
  shows "spec_clean parsed = parsed"
proof -
  have k: "strip_removed c = c \<and> \<not> is_removed_element c" if "c \<in> set parsed" for c
  proof -
    have sub: "\<And>nm. nm \<in> set (element_names c) \<Longrightarrow> \<not> tag_filter nm"
      using assms that by auto
    have "strip_removed c = c" using strip_removed_id sub by blast
    moreover have "\<not> is_removed_element c"
      using sub by (cases c) (auto simp: tag_filter_def removed_names_def)
    ultimately show ?thesis by simp
  qed
  have "filter (\<lambda>c. \<not> is_removed_element c) (map strip_removed parsed) = parsed"
    using k by (induction parsed) auto
  then show ?thesis by (simp add: spec_clean_def)
qed

text \<open>
  Claim C7. The tree left by the loop of decompositions is the parsed tree without the
  elements named \<^verbatim>\<open>style\<close>, \<^verbatim>\<open>script\<close>, \<^verbatim>\<open>img\<close> and \<^verbatim>\<open>path\<close> and without anything
  below them, and with every other node in place. The text handed to the model is the
  strings of that tree one after the other, unchanged. It depends on the bytes of the
  page only: two responses with the same content give the same text.
\<close>
theorem cleaner_removes_exactly:
  "map unlabel (clean_soup parsed) = spec_clean parsed
   \<and> extract_text parsed = spec_text parsed
   \<and> (content (page :: http_response) = content (page' :: http_response) \<longrightarrow>
        extract_text (html_parser (c :: collaborators) (content page))
          = extract_text (html_parser c (content page')))"
  by (simp add: clean_soup_unlabel extract_text_def spec_text_def soup_get_text_unlabel)

lemma demo_spec_clean:
  "spec_clean demo_document
     = [Element ''div'' [Str NavigableString ''hi  '', Element ''p'' [], Str Comment ''c'',
                          Str NavigableString '' yo'']]"
  by (simp add: spec_clean_def demo_document_def)

lemma demo_spec_text: "spec_text demo_document = ''hi   yo''"
  by (simp add: spec_text_def demo_spec_clean)

theorem cleaner_removes_exactly_witness:
  "map unlabel (clean_soup demo_document)
     = [Element ''div'' [Str NavigableString ''hi  '', Element ''p'' [], Str Comment ''c'',
                          Str NavigableString '' yo'']]
   \<and> extract_text demo_document = ''hi   yo''
   \<and> extract_text (html_parser demo_site ''<p>Hi <img>there</p>'') = ''Hi there''"
  using cleaner_removes_exactly [of demo_document _ _ demo_site]
  by (simp add: demo_spec_clean demo_spec_text demo_site_def extract_text_def clean_soup_def
      BeautifulSoup_def soup_find_all_def soup_decompose_def soup_get_text_def tag_filter_def
      removed_names_def Let_def)

section \<open>What each stage does to the world\<close>

lemma log_files [simp]: "files (log ev w) = files w"
  and log_delivered [simp]: "delivered (log ev w) = delivered w"
  and log_trace [simp]: "trace (log ev w) = trace w @ [ev]"
  by (simp_all add: log_def)


lemma cleanup_removes:
  "cleanup c p w = (w', r) \<Longrightarrow> os_unlink_error c p = None \<Longrightarrow> r = Inr () \<and> files w' p = None"
  by (auto simp: cleanup_def os_path_exists_def os_unlink_def Let_def
      split: if_splits option.splits)

lemma cleanup_raises:
  "cleanup c p w = (w', Inl e) \<Longrightarrow> os_unlink_error c p = Some e \<and> files w' = files w"
  by (auto simp: cleanup_def os_path_exists_def os_unlink_def Let_def
      split: if_splits option.splits)

lemma create_pdf_effect:
  "create_pdf c t p w = (w', r) \<Longrightarrow> delivered w' = delivered w \<and> trace w' = trace w @ [PdfBuild p]"
  by (auto simp: create_pdf_def Let_def split: sum.splits)


lemma smtp_session_effect:
  "smtp_session c se sp rcpt msg w = (w', r) \<Longrightarrow>
     files w' = files w \<and>
     ((r = Inr () \<and> (\<exists>refused. delivered w'
                        = delivered w @ [\<lparr>sent_message = msg, refused_recipients = refused\<rparr>]))
      \<or> ((\<exists>e. r = Inl e) \<and> delivered w' = delivered w))"
  by (auto simp: smtp_session_def Let_def split: option.splits sum.splits)

lemma smtp_exit_effect:
  "smtp_exit c (w, r) = (w', r') \<Longrightarrow>
     files w' = files w \<and> delivered w' = delivered w
     \<and> (r' = r \<or> (\<exists>e. smtp_quit c = Some e \<and> r' = Inl e))"
  by (auto simp: smtp_exit_def Let_def split: option.splits)

lemma send_email_effect:
  assumes "send_email c se sp rcpt subj body p w = (w', r)"
  shows "files w' = files w
     \<and> (delivered w' = delivered w
         \<or> (\<exists>d. delivered w' = delivered w @ [d] \<and> msg_to (sent_message d) = rcpt))
     \<and> (r = Inr () \<longrightarrow>
          (\<exists>d. delivered w' = delivered w @ [d] \<and> msg_to (sent_message d) = rcpt))
     \<and> ((\<exists>e. r = Inl e) \<and> smtp_quit c = None \<longrightarrow> delivered w' = delivered w)"
proof (cases "files w p")
  case None
  with assms show ?thesis by (auto simp: send_email_def)
next
  case (Some bytes)
  show ?thesis
  proof (cases "open_rb c p = None \<and> SMTP_SSL c = None")
    case False
    with assms Some show ?thesis
      by (auto simp: send_email_def Let_def split: option.splits)
  next
    case True
    let ?msg = "\<lparr>msg_from = se, msg_to = rcpt, msg_subject = subj, msg_body = body,
                 attachment = bytes, attachment_filename = ''article.pdf''\<rparr>"
    obtain w2 r2 where s: "smtp_session c se sp rcpt ?msg (log SmtpConnect w) = (w2, r2)"
      by (cases "smtp_session c se sp rcpt ?msg (log SmtpConnect w)")
    from assms Some True s have x: "smtp_exit c (w2, r2) = (w', r)"
      by (simp add: send_email_def Let_def)
    from smtp_session_effect [OF s] smtp_exit_effect [OF x] show ?thesis
      by (auto simp: log_def)
  qed
qed

lemma render_and_send_effect:
  assumes "render_and_send c req se sp art p w = (w', r)"
  shows "(r = Inr success_body
          \<or> (\<exists>e. r = Inl (HTTPException 500 (''Failed to process or send article: '' @ str e))))
     \<and> (delivered w' = delivered w
         \<or> (\<exists>d. delivered w' = delivered w @ [d] \<and> msg_to (sent_message d) = email req))
     \<and> (r = Inr success_body \<longrightarrow>
          (\<exists>d. delivered w' = delivered w @ [d] \<and> msg_to (sent_message d) = email req))
     \<and> (r \<noteq> Inr success_body \<and> smtp_quit c = None \<longrightarrow> delivered w' = delivered w)"
proof -
  obtain w1 r1 where cp: "create_pdf c art p w = (w1, r1)" by (cases "create_pdf c art p w")
  note ce = create_pdf_effect [OF cp]
  show ?thesis
  proof (cases r1)
    case (Inl e)
    with assms cp ce show ?thesis by (auto simp: render_and_send_def)
  next
    case (Inr u)
    obtain w2 r2 where se: "send_email c se sp (email req) (''Article from '' @ url req)
        ''Please find the attached article.'' p w1 = (w2, r2)"
      by (cases "send_email c se sp (email req) (''Article from '' @ url req)
        ''Please find the attached article.'' p w1")
    note ee = send_email_effect [OF se]
    show ?thesis
    proof (cases r2)
      case e: (Inl e)
      with assms cp Inr se have "w' = w2"
        "r = Inl (HTTPException 500 (''Failed to process or send article: '' @ str e))"
        by (auto simp: render_and_send_def)
      with ee ce e show ?thesis by auto
    next
      case ok: (Inr v)
      with assms cp Inr se have "w' = w2" "r = Inr success_body"
        by (auto simp: render_and_send_def)
      with ee ce ok show ?thesis by auto
    qed
  qed
qed



lemma endpoint_cases:
  assumes "process_article_endpoint c req w = (w', r)"
  shows "((falsy (environ c ''EMAIL_USER'') \<or> falsy (environ c ''EMAIL_PASSWORD''))
            \<and> w' = w \<and> r = Inl (HTTPException 500 config_detail))
       \<or> (\<not> falsy (environ c ''EMAIL_USER'') \<and> \<not> falsy (environ c ''EMAIL_PASSWORD'')
            \<and> (\<exists>x. process_article c (url req) w = (w', Inl x) \<and> r = Inl x))
       \<or> (\<not> falsy (environ c ''EMAIL_USER'') \<and> \<not> falsy (environ c ''EMAIL_PASSWORD'')
            \<and> (\<exists>art e. process_article c (url req) w = (w', Inr art)
                  \<and> NamedTemporaryFile c = Inl e \<and> r = Inl (Uncaught e)))
       \<or> (\<not> falsy (environ c ''EMAIL_USER'') \<and> \<not> falsy (environ c ''EMAIL_PASSWORD'')
            \<and> (\<exists>art p w1 w2 r2 rc. process_article c (url req) w = (w1, Inr art)
                  \<and> NamedTemporaryFile c = Inr p
                  \<and> render_and_send c req (the (environ c ''EMAIL_USER''))
                       (the (environ c ''EMAIL_PASSWORD'')) art p
                       (log (TempFileCreated p) (w1\<lparr>files := (files w1)(p \<mapsto> [])\<rparr>)) = (w2, r2)
                  \<and> cleanup c p w2 = (w', rc)
                  \<and> r = (case rc of Inl e \<Rightarrow> Inl (Uncaught e) | Inr u \<Rightarrow> r2)))"
proof (cases "falsy (environ c ''EMAIL_USER'') \<or> falsy (environ c ''EMAIL_PASSWORD'')")
  case True
  with assms show ?thesis by (auto simp: process_article_endpoint_def)
next
  case F: False
  obtain w1 r1 where pa: "process_article c (url req) w = (w1, r1)"
    by (cases "process_article c (url req) w")
  show ?thesis
  proof (cases r1)
    case (Inl x)
    with assms F pa show ?thesis by (auto simp: process_article_endpoint_def)
  next
    case (Inr art)
    show ?thesis
    proof (cases "NamedTemporaryFile c")
      case (Inl e)
      with assms F pa Inr show ?thesis by (auto simp: process_article_endpoint_def)
    next
      case tf: (Inr p)
      let ?w0 = "log (TempFileCreated p) (w1\<lparr>files := (files w1)(p \<mapsto> [])\<rparr>)"
      obtain w2 r2 where rs: "render_and_send c req (the (environ c ''EMAIL_USER''))
          (the (environ c ''EMAIL_PASSWORD'')) art p ?w0 = (w2, r2)"
        by (cases "render_and_send c req (the (environ c ''EMAIL_USER''))
          (the (environ c ''EMAIL_PASSWORD'')) art p ?w0")
      obtain w3 r3 where cl: "cleanup c p w2 = (w3, r3)" by (cases "cleanup c p w2")
      from assms F pa Inr tf rs cl have "w' = w3"
        "r = (case r3 of Inl e \<Rightarrow> Inl (Uncaught e) | Inr u \<Rightarrow> r2)"
        by (auto simp: process_article_endpoint_def try_finally_def split: sum.splits)
      with F pa Inr tf rs cl show ?thesis by blast
    qed
  qed
qed

lemmas run_defs = process_article_endpoint_def process_article_def fetch_def raise_for_status_def
  try_finally_def render_and_send_def create_pdf_def send_email_def smtp_session_def smtp_exit_def
  cleanup_def os_path_exists_def os_unlink_def log_def Let_def new_events_def

lemma demo_extract: "extract_text [Element ''p'' [Str NavigableString ''Hi '', Element ''img'' [],
                                            Str NavigableString ''there'']] = ''Hi there''"
  by (simp add: extract_text_def clean_soup_def BeautifulSoup_def soup_find_all_def soup_decompose_def
      soup_get_text_def tag_filter_def removed_names_def Let_def)

lemmas site_defs = demo_site_def no_user_site_def empty_password_site_def not_found_site_def
  not_modified_site_def model_down_site_def relay_down_site_def quit_refused_site_def
  unlink_denied_site_def relay_down_unlink_denied_site_def demo_world_def demo_request_def

lemma str_nat_404: "str_nat 404 = ''404''"
  by (simp add: str_nat.simps digit_char_def)

lemma demo_parse:
  "parse_ArticleRequest ''https://example.com/a'' ''reader@example.com'' = Inr demo_request"
  by (simp add: parse_ArticleRequest_def validate_url_def validate_email_def demo_request_def)

lemma post_valid:
  "parse_ArticleRequest u e = Inr req \<Longrightarrow>
     post_process_article c u e w
       = (fst (process_article_endpoint c req w), respond (snd (process_article_endpoint c req w)))"
  by (simp add: post_process_article_def split: prod.splits)

lemma parse_fields:
  "parse_ArticleRequest u e = Inr req \<Longrightarrow> url req = u \<and> email req = e"
  by (auto simp: parse_ArticleRequest_def validate_url_def validate_email_def split: if_splits)

lemma demo_world_fields [simp]:
  "files demo_world = Map.empty" "delivered demo_world = []" "trace demo_world = []"
  by (simp_all add: demo_world_def)

lemma truthy_creds:
  "\<not> falsy (environ c ''EMAIL_USER'') \<Longrightarrow> \<not> falsy (environ c ''EMAIL_PASSWORD'') \<Longrightarrow>
   process_article_endpoint c req w =
     (case process_article c (url req) w of
        (w1, Inl r) \<Rightarrow> (w1, Inl r)
      | (w1, Inr article_content) \<Rightarrow>
          (case NamedTemporaryFile c of
             Inl e \<Rightarrow> (w1, Inl (Uncaught e))
           | Inr pdf_path \<Rightarrow>
               try_finally
                 (render_and_send c req (the (environ c ''EMAIL_USER''))
                    (the (environ c ''EMAIL_PASSWORD'')) article_content pdf_path)
                 (cleanup c pdf_path)
                 (log (TempFileCreated pdf_path) (w1\<lparr>files := (files w1)(pdf_path \<mapsto> [])\<rparr>))))"
  by (simp add: process_article_endpoint_def)

section \<open>The claims\<close>

text \<open>
  Claim C9. \<^verbatim>\<open>GET /health\<close> answers 200 with the body \<^verbatim>\<open>{"status": "healthy"}\<close>, whatever
  the collaborators and the world are, and returns the world as it received it.
\<close>
theorem health_is_constant:
  "health_check = [(''status'', ''healthy'')]
   \<and> get_health c w = (w, \<lparr>status = 200, payload = Json [(''status'', ''healthy'')]\<rparr>)"
  by (simp add: get_health_def health_check_def)

theorem health_is_constant_witness:
  "get_health no_user_site demo_world
     = (demo_world, \<lparr>status = 200, payload = Json [(''status'', ''healthy'')]\<rparr>)"
  using health_is_constant [of no_user_site demo_world] by simp

lemma config_detail_not_pipeline: "\<not> is_pipeline_detail config_detail"
  by (simp add: is_pipeline_detail_def config_detail_def)

text \<open>
  Claim C2. When \<^verbatim>\<open>EMAIL_USER\<close> or \<^verbatim>\<open>EMAIL_PASSWORD\<close> is absent from the environment, the
  handler raises the 500 configuration error and returns the world untouched: no event
  is added to the trace, so no fetch, model call, rendering or send was attempted. A
  valid body is answered 500 with that detail. The detail of the configuration error is
  not the detail of any pipeline error.
\<close>
theorem missing_credentials_fail_fast:
  assumes "environ c ''EMAIL_USER'' = None \<or> environ c ''EMAIL_PASSWORD'' = None"
  shows "process_article_endpoint c req w = (w, Inl (HTTPException 500 config_detail))
       \<and> new_events w (fst (process_article_endpoint c req w)) = []
       \<and> (parse_ArticleRequest u e = Inr req \<longrightarrow>
            post_process_article c u e w
              = (w, \<lparr>status = 500, payload = Json [(''detail'', config_detail)]\<rparr>))
       \<and> \<not> is_pipeline_detail config_detail"
proof -
  from assms have "falsy (environ c ''EMAIL_USER'') \<or> falsy (environ c ''EMAIL_PASSWORD'')"
    by auto
  then have "process_article_endpoint c req w = (w, Inl (HTTPException 500 config_detail))"
    by (simp add: process_article_endpoint_def)
  then show ?thesis
    by (simp add: new_events_def config_detail_not_pipeline post_process_article_def)
qed

theorem missing_credentials_fail_fast_witness:
  "environ no_user_site ''EMAIL_USER'' = None
   \<and> parse_ArticleRequest ''https://example.com/a'' ''reader@example.com'' = Inr demo_request
   \<and> process_article_endpoint no_user_site demo_request demo_world
       = (demo_world, Inl (HTTPException 500 config_detail))
   \<and> post_process_article no_user_site ''https://example.com/a'' ''reader@example.com'' demo_world
       = (demo_world, \<lparr>status = 500, payload = Json [(''detail'', config_detail)]\<rparr>)"
proof -
  have h: "environ no_user_site ''EMAIL_USER'' = None"
    by (simp add: no_user_site_def)
  from missing_credentials_fail_fast [of no_user_site demo_request demo_world
      "''https://example.com/a''" "''reader@example.com''"] h demo_parse
  show ?thesis by simp
qed

text \<open>
  Claim C10. A credential that is set to the empty string counts as missing: the handler
  raises the same 500 configuration error and attempts nothing, and a valid body is
  answered 500 with that detail.
\<close>
theorem empty_credentials_fail_fast:
  assumes "environ c ''EMAIL_USER'' = Some [] \<or> environ c ''EMAIL_PASSWORD'' = Some []"
  shows "process_article_endpoint c req w = (w, Inl (HTTPException 500 config_detail))
       \<and> new_events w (fst (process_article_endpoint c req w)) = []
       \<and> (parse_ArticleRequest u e = Inr req \<longrightarrow>
            post_process_article c u e w
              = (w, \<lparr>status = 500, payload = Json [(''detail'', config_detail)]\<rparr>))"
proof -
  from assms have "falsy (environ c ''EMAIL_USER'') \<or> falsy (environ c ''EMAIL_PASSWORD'')"
    by auto
  then have "process_article_endpoint c req w = (w, Inl (HTTPException 500 config_detail))"
    by (simp add: process_article_endpoint_def)
  then show ?thesis
    by (simp add: new_events_def post_process_article_def)
qed

theorem empty_credentials_fail_fast_witness:
  "environ empty_password_site ''EMAIL_PASSWORD'' = Some []
   \<and> parse_ArticleRequest ''https://example.com/a'' ''reader@example.com'' = Inr demo_request
   \<and> process_article_endpoint empty_password_site demo_request demo_world
       = (demo_world, Inl (HTTPException 500 config_detail))
   \<and> post_process_article empty_password_site ''https://example.com/a'' ''reader@example.com''
         demo_world
       = (demo_world, \<lparr>status = 500, payload = Json [(''detail'', config_detail)]\<rparr>)"
proof -
  have h: "environ empty_password_site ''EMAIL_PASSWORD'' = Some []"
    by (simp add: empty_password_site_def)
  from empty_credentials_fail_fast [of empty_password_site demo_request demo_world
      "''https://example.com/a''" "''reader@example.com''"] h demo_parse
  show ?thesis by simp
qed

text \<open>
  Claim C3. A body whose url starts with neither \<^verbatim>\<open>http://\<close> nor \<^verbatim>\<open>https://\<close>, or whose
  email has no \<^verbatim>\<open>@\<close> or no \<^verbatim>\<open>.\<close>, gets a 422 with at least one field error, and the
  world is returned untouched: the handler is not called and no network call is made.
\<close>
theorem invalid_body_is_rejected:
  assumes "\<not> (prefix ''http://'' u \<or> prefix ''https://'' u)
           \<or> CHR ''@'' \<notin> set e \<or> CHR ''.'' \<notin> set e"
  shows "\<exists>errors. errors \<noteq> []
           \<and> post_process_article c u e w = (w, \<lparr>status = 422, payload = FieldErrors errors\<rparr>)"
  using assms
  by (auto simp: post_process_article_def parse_ArticleRequest_def validate_url_def
      validate_email_def field_errors_def)

theorem invalid_body_is_rejected_witness:
  "CHR ''.'' \<notin> set ''reader@localhost''
   \<and> post_process_article demo_site ''https://example.com/a'' ''reader@localhost'' demo_world
       = (demo_world, \<lparr>status = 422, payload = FieldErrors [(''email'', ''Invalid email format'')]\<rparr>)"
proof -
  have h: "CHR ''.'' \<notin> set ''reader@localhost''" by simp
  from invalid_body_is_rejected [of "''https://example.com/a''" "''reader@localhost''" demo_site demo_world] h
  obtain errors where
    "post_process_article demo_site ''https://example.com/a'' ''reader@localhost'' demo_world
       = (demo_world, \<lparr>status = 422, payload = FieldErrors errors\<rparr>)" by blast
  moreover have "parse_ArticleRequest ''https://example.com/a'' ''reader@localhost''
       = Inl [(''email'', ''Invalid email format'')]"
    by (simp add: parse_ArticleRequest_def validate_url_def validate_email_def)
  ultimately show ?thesis using h by (simp add: post_process_article_def)
qed











lemma process_article_raised:
  "process_article c u w = (w', Inl x) \<Longrightarrow>
     (\<exists>e. x = Uncaught e) \<or> (\<exists>d. x = HTTPException 400 d \<and> is_pipeline_detail d)
       \<or> (\<exists>d. x = HTTPException 500 d \<and> is_pipeline_detail d)"
  by (auto simp: process_article_def Let_def is_pipeline_detail_def
      split: option.splits sum.splits exn.splits)







lemma fetch_failure:
  assumes "requests_get c u = Inl (RequestException cause)
           \<or> (\<exists>page. requests_get c u = Inr page \<and> 400 \<le> status_code page \<and> status_code page < 600
                \<and> raise_for_status page = Inl (RequestException cause))"
  shows "fetch c u = Inl (RequestException cause)"
  using assms by (auto simp: fetch_def)

lemma raise_for_status_error_range:
  "(\<exists>m. raise_for_status page = Inl (RequestException m))
     = (400 \<le> status_code page \<and> status_code page < 600)"
  by (auto simp: raise_for_status_def)

text \<open>
  Claim C4, as amended. For a valid request, with credentials set and the model client
  built, when \<^verbatim>\<open>requests.get\<close> raises a \<^verbatim>\<open>RequestException\<close> or the response has a
  status from 400 to 599, the answer is 400 with the detail
  \<^verbatim>\<open>Failed to fetch article: \<close> followed by the message of the exception; no file is
  created, no mail is delivered, and the fetch is the only call attempted.
\<close>
theorem fetch_failure_is_400:
  assumes "parse_ArticleRequest u e = Inr req"
    and "\<not> falsy (environ c ''EMAIL_USER'')" and "\<not> falsy (environ c ''EMAIL_PASSWORD'')"
    and "OpenAI c = None"
    and "requests_get c u = Inl (RequestException cause)
         \<or> (\<exists>page. requests_get c u = Inr page \<and> 400 \<le> status_code page \<and> status_code page < 600
              \<and> raise_for_status page = Inl (RequestException cause))"
  shows "post_process_article c u e w
           = (log (HttpGet u) w,
              \<lparr>status = 400, payload = Json [(''detail'', ''Failed to fetch article: '' @ cause)]\<rparr>)
         \<and> files (fst (post_process_article c u e w)) = files w
         \<and> delivered (fst (post_process_article c u e w)) = delivered w
         \<and> new_events w (fst (post_process_article c u e w)) = [HttpGet u]"
proof -
  have f: "fetch c u = Inl (RequestException cause)" using assms(5) by (rule fetch_failure)
  have pa: "process_article c u w
      = (log (HttpGet u) w, Inl (HTTPException 400 (''Failed to fetch article: '' @ cause)))"
    using assms(4) f by (simp add: process_article_def)
  have "process_article_endpoint c req w
      = (log (HttpGet u) w, Inl (HTTPException 400 (''Failed to fetch article: '' @ cause)))"
    using parse_fields [OF assms(1)] pa by (simp add: truthy_creds [OF assms(2,3)])
  then have "post_process_article c u e w
           = (log (HttpGet u) w,
              \<lparr>status = 400, payload = Json [(''detail'', ''Failed to fetch article: '' @ cause)]\<rparr>)"
    by (simp add: post_valid [OF assms(1)])
  then show ?thesis by (simp add: new_events_def)
qed

theorem fetch_failure_is_400_witness:
  "post_process_article not_found_site ''https://example.com/a'' ''reader@example.com'' demo_world
     = (log (HttpGet ''https://example.com/a'') demo_world,
        \<lparr>status = 400,
         payload = Json [(''detail'',
           ''Failed to fetch article: 404 Client Error: Not Found for url: https://example.com/a'')]\<rparr>)
   \<and> delivered (fst (post_process_article not_found_site ''https://example.com/a''
                       ''reader@example.com'' demo_world)) = []
   \<and> new_events demo_world (fst (post_process_article not_found_site ''https://example.com/a''
                       ''reader@example.com'' demo_world)) = [HttpGet ''https://example.com/a'']"
proof -
  have c1: "\<not> falsy (environ not_found_site ''EMAIL_USER'')"
    and c2: "\<not> falsy (environ not_found_site ''EMAIL_PASSWORD'')"
    and c3: "OpenAI not_found_site = None"
    by (simp_all add: site_defs)
  have c4: "requests_get not_found_site ''https://example.com/a''
         = Inl (RequestException ''404 Client Error: Not Found for url: https://example.com/a'')
       \<or> (\<exists>page. requests_get not_found_site ''https://example.com/a'' = Inr page
              \<and> 400 \<le> status_code page \<and> status_code page < 600
              \<and> raise_for_status page
                  = Inl (RequestException ''404 Client Error: Not Found for url: https://example.com/a''))"
    by (simp add: site_defs raise_for_status_def str_nat_404)
  from fetch_failure_is_400 [OF demo_parse c1 c2 c3 c4, of demo_world]
  show ?thesis by (simp add: new_events_def)
qed

text \<open>
  Claim C4 as it is stated fails for a status outside 200 to 299 that is not an error
  status: a response 304 is not a fetch failure for \<^verbatim>\<open>raise_for_status\<close>, the pipeline
  goes on, and the request is answered 200 with a mail delivered.
\<close>
theorem non_2xx_status_not_a_fetch_failure:
  "requests_get not_modified_site ''https://example.com/a''
     = Inr \<lparr>status_code = 304, reason = ''Not Modified'',
            response_url = ''https://example.com/a'', content = []\<rparr>
   \<and> parse_ArticleRequest ''https://example.com/a'' ''reader@example.com'' = Inr demo_request
   \<and> status (snd (post_process_article not_modified_site ''https://example.com/a''
                     ''reader@example.com'' demo_world)) = 200
   \<and> length (delivered (fst (post_process_article not_modified_site ''https://example.com/a''
                     ''reader@example.com'' demo_world))) = 1"
  by (simp add: post_valid [OF demo_parse] demo_parse run_defs site_defs demo_extract success_body_def)

text \<open>
  Claim C6. For a valid request whose fetch succeeded, when the call to the model raises,
  the answer is 500 with the detail \<^verbatim>\<open>Failed to process article content: \<close> followed by
  the message of the exception. The run attempted one fetch and one model call, in that
  order, and nothing else: the call is not repeated.
\<close>
theorem summarizer_failure_is_500:
  assumes "parse_ArticleRequest u e = Inr req"
    and "\<not> falsy (environ c ''EMAIL_USER'')" and "\<not> falsy (environ c ''EMAIL_PASSWORD'')"
    and "OpenAI c = None"
    and "fetch c u = Inr page"
    and "responses_create c (extract_text (html_parser c (content page))) = Inl err"
  shows "post_process_article c u e w
           = (log (ModelCall (extract_text (html_parser c (content page)))) (log (HttpGet u) w),
              \<lparr>status = 500,
               payload = Json [(''detail'', ''Failed to process article content: '' @ str err)]\<rparr>)
         \<and> new_events w (fst (post_process_article c u e w))
             = [HttpGet u, ModelCall (extract_text (html_parser c (content page)))]
         \<and> delivered (fst (post_process_article c u e w)) = delivered w"
proof -
  let ?t = "extract_text (html_parser c (content page))"
  have pa: "process_article c u w
      = (log (ModelCall ?t) (log (HttpGet u) w),
         Inl (HTTPException 500 (''Failed to process article content: '' @ str err)))"
    using assms(4,5,6) by (simp add: process_article_def Let_def)
  have "process_article_endpoint c req w
      = (log (ModelCall ?t) (log (HttpGet u) w),
         Inl (HTTPException 500 (''Failed to process article content: '' @ str err)))"
    using parse_fields [OF assms(1)] pa by (simp add: truthy_creds [OF assms(2,3)])
  then have "post_process_article c u e w
           = (log (ModelCall ?t) (log (HttpGet u) w),
              \<lparr>status = 500,
               payload = Json [(''detail'', ''Failed to process article content: '' @ str err)]\<rparr>)"
    by (simp add: post_valid [OF assms(1)])
  then show ?thesis by (simp add: new_events_def)
qed

theorem summarizer_failure_is_500_witness:
  "snd (post_process_article model_down_site ''https://example.com/a'' ''reader@example.com'' demo_world)
     = \<lparr>status = 500,
        payload = Json [(''detail'', ''Failed to process article content: Connection error.'')]\<rparr>
   \<and> new_events demo_world (fst (post_process_article model_down_site ''https://example.com/a''
                       ''reader@example.com'' demo_world))
       = [HttpGet ''https://example.com/a'', ModelCall ''Hi there'']"
proof -
  let ?page = "\<lparr>status_code = 200, reason = ''OK'', response_url = ''https://example.com/a'',
                content = ''<p>Hi <img>there</p>''\<rparr>"
  have c1: "\<not> falsy (environ model_down_site ''EMAIL_USER'')"
    and c2: "\<not> falsy (environ model_down_site ''EMAIL_PASSWORD'')"
    and c3: "OpenAI model_down_site = None"
    by (simp_all add: site_defs)
  have c4: "fetch model_down_site ''https://example.com/a'' = Inr ?page"
    by (simp add: site_defs fetch_def raise_for_status_def)
  have c5: "responses_create model_down_site
              (extract_text (html_parser model_down_site (content ?page)))
            = Inl (OtherException ''Connection error.'')"
    by (simp add: site_defs)
  have t: "extract_text (html_parser model_down_site ''<p>Hi <img>there</p>'') = ''Hi there''"
    by (simp add: site_defs demo_extract)
  from summarizer_failure_is_500 [OF demo_parse c1 c2 c3 c4 c5, of demo_world]
  show ?thesis by (simp add: t new_events_def)
qed

text \<open>
  Claim C8, as amended. The \<^verbatim>\<open>finally\<close> block raises nothing of its own when the
  temporary file is not there or when \<^verbatim>\<open>os.unlink\<close> returns. An error of the fetch or of
  the model call leaves the handler as it was raised (the \<^verbatim>\<open>finally\<close> block is not
  reached). When the \<^verbatim>\<open>try\<close> block ends with an error (rendering or sending raised) and
  \<^verbatim>\<open>os.unlink\<close> returns, the error that leaves the handler is that error, the 500 that
  carries the message of the original exception.
\<close>
theorem cleanup_keeps_error_when_unlink_returns:
  assumes "\<not> falsy (environ c ''EMAIL_USER'')" and "\<not> falsy (environ c ''EMAIL_PASSWORD'')"
  shows "(files v q = None \<or> os_unlink_error c q = None \<longrightarrow> snd (cleanup c q v) = Inr ())
       \<and> (snd (process_article c (url req) w) = Inl x \<longrightarrow>
            snd (process_article_endpoint c req w) = Inl x)
       \<and> (snd (process_article c (url req) w) = Inr art \<and> NamedTemporaryFile c = Inr p
            \<and> os_unlink_error c p = None
            \<and> snd (render_and_send c req (the (environ c ''EMAIL_USER''))
                      (the (environ c ''EMAIL_PASSWORD'')) art p (world_at_try c req w p)) = Inl y
          \<longrightarrow> snd (process_article_endpoint c req w) = Inl y
              \<and> (\<exists>e. y = HTTPException 500 (''Failed to process or send article: '' @ str e)))"
proof -
  have A: "files v q = None \<or> os_unlink_error c q = None \<longrightarrow> snd (cleanup c q v) = Inr ()"
    by (auto simp: cleanup_def os_path_exists_def os_unlink_def Let_def split: option.splits)
  have B: "snd (process_article c (url req) w) = Inl x \<longrightarrow>
            snd (process_article_endpoint c req w) = Inl x"
    by (cases "process_article c (url req) w") (simp add: truthy_creds [OF assms])
  have C: "snd (process_article c (url req) w) = Inr art \<and> NamedTemporaryFile c = Inr p
            \<and> os_unlink_error c p = None
            \<and> snd (render_and_send c req (the (environ c ''EMAIL_USER''))
                      (the (environ c ''EMAIL_PASSWORD'')) art p (world_at_try c req w p)) = Inl y
          \<longrightarrow> snd (process_article_endpoint c req w) = Inl y
              \<and> (\<exists>e. y = HTTPException 500 (''Failed to process or send article: '' @ str e))"
  proof
    assume h: "snd (process_article c (url req) w) = Inr art \<and> NamedTemporaryFile c = Inr p
            \<and> os_unlink_error c p = None
            \<and> snd (render_and_send c req (the (environ c ''EMAIL_USER''))
                      (the (environ c ''EMAIL_PASSWORD'')) art p (world_at_try c req w p)) = Inl y"
    obtain w1 where pa: "process_article c (url req) w = (w1, Inr art)"
      using h by (cases "process_article c (url req) w") simp
    let ?w0 = "log (TempFileCreated p) (w1\<lparr>files := (files w1)(p \<mapsto> [])\<rparr>)"
    have w0: "world_at_try c req w p = ?w0" by (simp add: world_at_try_def pa)
    obtain w2 where rs: "render_and_send c req (the (environ c ''EMAIL_USER''))
        (the (environ c ''EMAIL_PASSWORD'')) art p ?w0 = (w2, Inl y)"
      using h unfolding w0
      by (cases "render_and_send c req (the (environ c ''EMAIL_USER''))
        (the (environ c ''EMAIL_PASSWORD'')) art p ?w0") simp
    obtain w3 r3 where cl: "cleanup c p w2 = (w3, r3)" by (cases "cleanup c p w2")
    from h have u: "os_unlink_error c p = None" by simp
    from cleanup_removes [OF cl u] have r3: "r3 = Inr ()" by simp
    have "process_article_endpoint c req w = (w3, Inl y)"
      using pa h rs cl r3 by (simp add: truthy_creds [OF assms] try_finally_def)
    moreover from render_and_send_effect [OF rs]
    have "\<exists>e. y = HTTPException 500 (''Failed to process or send article: '' @ str e)"
      by (auto simp: success_body_def)
    ultimately show "snd (process_article_endpoint c req w) = Inl y
              \<and> (\<exists>e. y = HTTPException 500 (''Failed to process or send article: '' @ str e))"
      by simp
  qed
  from A B C show ?thesis by (intro conjI)
qed

theorem cleanup_keeps_error_when_unlink_returns_witness:
  "os_unlink_error relay_down_site ''/tmp/tmpk3v9x2aq.pdf'' = None
   \<and> snd (render_and_send relay_down_site demo_request ''bot@example.com'' ''hunter2''
          ''Title. Hi there'' ''/tmp/tmpk3v9x2aq.pdf''
          (world_at_try relay_down_site demo_request demo_world ''/tmp/tmpk3v9x2aq.pdf''))
     = Inl (HTTPException 500 ''Failed to process or send article: Username and Password not accepted'')
   \<and> snd (process_article_endpoint relay_down_site demo_request demo_world)
     = Inl (HTTPException 500 ''Failed to process or send article: Username and Password not accepted'')
   \<and> snd (process_article model_down_site (url demo_request) demo_world)
     = Inl (HTTPException 500 ''Failed to process article content: Connection error.'')
   \<and> snd (process_article_endpoint model_down_site demo_request demo_world)
     = Inl (HTTPException 500 ''Failed to process article content: Connection error.'')"
proof -
  have c1: "\<not> falsy (environ relay_down_site ''EMAIL_USER'')"
    and c2: "\<not> falsy (environ relay_down_site ''EMAIL_PASSWORD'')"
    and d1: "\<not> falsy (environ model_down_site ''EMAIL_USER'')"
    and d2: "\<not> falsy (environ model_down_site ''EMAIL_PASSWORD'')"
    and c3: "NamedTemporaryFile relay_down_site = Inr ''/tmp/tmpk3v9x2aq.pdf''"
    and c6: "os_unlink_error relay_down_site ''/tmp/tmpk3v9x2aq.pdf'' = None"
    and u: "the (environ relay_down_site ''EMAIL_USER'') = ''bot@example.com''"
    and pw: "the (environ relay_down_site ''EMAIL_PASSWORD'') = ''hunter2''"
    by (simp_all add: site_defs)
  have c4: "snd (process_article relay_down_site (url demo_request) demo_world)
              = Inr ''Title. Hi there''"
    by (simp add: run_defs site_defs demo_extract)
  have c5: "snd (render_and_send relay_down_site demo_request ''bot@example.com'' ''hunter2''
                  ''Title. Hi there'' ''/tmp/tmpk3v9x2aq.pdf''
                  (world_at_try relay_down_site demo_request demo_world ''/tmp/tmpk3v9x2aq.pdf''))
     = Inl (HTTPException 500 ''Failed to process or send article: Username and Password not accepted'')"
    by (simp add: world_at_try_def run_defs site_defs demo_extract)
  have d3: "snd (process_article model_down_site (url demo_request) demo_world)
     = Inl (HTTPException 500 ''Failed to process article content: Connection error.'')"
    by (simp add: run_defs site_defs demo_extract)
  from cleanup_keeps_error_when_unlink_returns [OF c1 c2, of _ _ demo_request demo_world _
      "''Title. Hi there''" "''/tmp/tmpk3v9x2aq.pdf''"
      "HTTPException 500 ''Failed to process or send article: Username and Password not accepted''"]
    cleanup_keeps_error_when_unlink_returns [OF d1 d2, of _ _ demo_request demo_world
      "HTTPException 500 ''Failed to process article content: Connection error.''"]
    c3 c4 c5 c6 d3
  show ?thesis by (simp add: u pw)
qed

text \<open>
  Claim C8 as it is stated fails when \<^verbatim>\<open>os.unlink\<close> raises in the \<^verbatim>\<open>finally\<close> block: the
  \<^verbatim>\<open>try\<close> block ended with the 500 of the failed login, and what leaves the handler is the
  exception of \<^verbatim>\<open>os.unlink\<close> instead, which the client sees as a bare 500.
\<close>
theorem unlink_error_replaces_original_error:
  "snd (render_and_send relay_down_unlink_denied_site demo_request ''bot@example.com'' ''hunter2''
          ''Title. Hi there'' ''/tmp/tmpk3v9x2aq.pdf''
          (world_at_try relay_down_unlink_denied_site demo_request demo_world
             ''/tmp/tmpk3v9x2aq.pdf''))
     = Inl (HTTPException 500 ''Failed to process or send article: Username and Password not accepted'')
   \<and> snd (process_article_endpoint relay_down_unlink_denied_site demo_request demo_world)
     = Inl (Uncaught (OtherException ''[Errno 1] Operation not permitted''))
   \<and> respond (snd (process_article_endpoint relay_down_unlink_denied_site demo_request demo_world))
     = \<lparr>status = 500, payload = PlainText ''Internal Server Error''\<rparr>"
  by (simp add: world_at_try_def run_defs site_defs demo_extract)

text \<open>
  With the credentials set, every \<^verbatim>\<open>HTTPException\<close> that leaves the handler carries the
  detail of a pipeline error, which the configuration detail is not.
\<close>

lemma pipeline_errors_have_pipeline_detail:
  assumes "\<not> falsy (environ c ''EMAIL_USER'')" and "\<not> falsy (environ c ''EMAIL_PASSWORD'')"
    and "process_article_endpoint c req w = (w', Inl (HTTPException code detail))"
  shows "is_pipeline_detail detail"
proof -
  from endpoint_cases [OF assms(3)] assms(1,2)
  consider (stage) "process_article c (url req) w = (w', Inl (HTTPException code detail))"
    | (sent) art q w1 w2 r2 and rc :: "exn + unit" where
        "render_and_send c req (the (environ c ''EMAIL_USER'')) (the (environ c ''EMAIL_PASSWORD''))
           art q (log (TempFileCreated q) (w1\<lparr>files := (files w1)(q \<mapsto> [])\<rparr>)) = (w2, r2)"
        "Inl (HTTPException code detail) = (case rc of Inl e \<Rightarrow> Inl (Uncaught e) | Inr u \<Rightarrow> r2)"
    by auto
  then show ?thesis
  proof cases
    case stage
    from process_article_raised [OF stage] show ?thesis by auto
  next
    case sent
    from sent(2) have "r2 = Inl (HTTPException code detail)" by (cases rc) auto
    with render_and_send_effect [OF sent(1)] show ?thesis
      by (auto simp: is_pipeline_detail_def success_body_def)
  qed
qed

end
